theory Spec2Isabelle
  imports Main
begin

section \<open>Chain events\<close>

text \<open>
  The chain module of the Phat Contract UI (the hooks and helpers around the node
  connection, the system event log, extrinsic submission and the block barrier).
  A codec value delivered by the node is opaque to this module: it is only passed on, so
  it is represented by its rendering.
\<close>

type_synonym Codec = string
type_synonym AnyJson = string

text \<open>
  An event of the node: \<open>{ data, method, section }\<close>, and the record carrying it:
  \<open>{ phase, event, topics }\<close>.
\<close>

record Event =
  ev_section :: string
  ev_method :: string
  data :: "Codec list"

record EventRecord =
  phase :: string
  event :: Event
  topics :: "string list"

text \<open>\<open>interface IndexedEvent { indexes: number[]; record: EventRecord }\<close>\<close>

record IndexedEvent =
  indexes :: "nat list"
  ev_record :: EventRecord

text \<open>
  \<open>interface KeyedEvent extends IndexedEvent\<close>: \<open>blockHash\<close> and \<open>blockNumber\<close> are
  optional fields.
\<close>

record KeyedEvent = IndexedEvent +
  blockHash :: "string option"
  blockNumber :: "nat option"
  key :: string

definition MAX_EVENTS :: nat where
  "MAX_EVENTS = 75"

section \<open>useSystemEvents: the deduplication pipeline\<close>

text \<open>
  The predicate handed to \<open>.filter\<close>:
  \<^verbatim>\<open>section !== 'system' &&
  (!['balances', 'treasury'].includes(section) || !['Deposit'].includes(method)) &&
  (!['parasInclusion', 'inclusion'].includes(section) ||
   !['CandidateBacked', 'CandidateIncluded'].includes(method))\<close>
\<close>

definition keep_event :: "IndexedEvent \<Rightarrow> bool" where
  "keep_event e =
     (let section = ev_section (event (ev_record e)); method = ev_method (event (ev_record e))
      in section \<noteq> ''system'' \<and>
         (section \<notin> set [''balances'', ''treasury''] \<or>
          method \<notin> set [''Deposit'']) \<and>
         (section \<notin> set [''parasInclusion'', ''inclusion''] \<or>
          method \<notin> set [''CandidateBacked'', ''CandidateIncluded'']))"

text \<open>The predicate handed to \<open>combined.find\<close> for the event \<open>e\<close>.\<close>

definition same_kind :: "IndexedEvent \<Rightarrow> IndexedEvent \<Rightarrow> bool" where
  "same_kind e p =
     (ev_section (event (ev_record e)) = ev_section (event (ev_record p)) \<and>
      ev_method (event (ev_record e)) = ev_method (event (ev_record p)))"

text \<open>
  The reducer. \<open>find\<close> yields the first entry of \<open>combined\<close> of the same kind; that entry is
  updated in place (\<open>prev.indexes.push(...e.indexes)\<close>), so it keeps its position. With no
  such entry \<open>e\<close> is pushed at the end.
\<close>

definition combine :: "IndexedEvent list \<Rightarrow> IndexedEvent \<Rightarrow> IndexedEvent list" where
  "combine combined e =
     (case List.extract (same_kind e) combined of
        Some (before, prev, after) \<Rightarrow>
          before @ [prev\<lparr>indexes := indexes prev @ indexes e\<rparr>] @ after
      | None \<Rightarrow> combined @ [e])"

text \<open>\<open>records.map((record, index) => ({ indexes: [index], record }))\<close>\<close>

definition index_records :: "EventRecord list \<Rightarrow> IndexedEvent list" where
  "index_records records =
     map (\<lambda>(index, r). \<lparr>indexes = [index], ev_record = r\<rparr>) (List.enumerate 0 records)"

text \<open>\<open>newEvents = records.map(...).filter(...).reduce(..., []).reverse()\<close>\<close>

definition newEvents :: "EventRecord list \<Rightarrow> IndexedEvent list" where
  "newEvents records = rev (foldl combine [] (filter keep_event (index_records records)))"

subsection \<open>The pipeline as the specification words it\<close>

text \<open>
  The noise table: every \<open>system\<close> event, every \<open>balances\<close> or \<open>treasury\<close> event named
  \<open>Deposit\<close>, every \<open>parasInclusion\<close> or \<open>inclusion\<close> event named \<open>CandidateBacked\<close> or
  \<open>CandidateIncluded\<close>.
\<close>

definition spec_noise :: "EventRecord \<Rightarrow> bool" where
  "spec_noise r =
     (let s = ev_section (event r); m = ev_method (event r)
      in s = ''system''
         \<or> ((s = ''balances'' \<or> s = ''treasury'') \<and> m = ''Deposit'')
         \<or> ((s = ''parasInclusion'' \<or> s = ''inclusion'')
            \<and> (m = ''CandidateBacked'' \<or> m = ''CandidateIncluded'')))"

definition kind_of :: "EventRecord \<Rightarrow> string \<times> string" where
  "kind_of r = (ev_section (event r), ev_method (event r))"

text \<open>
  The merge rule: an event whose (section, method) already occurs in the accumulator has
  its index appended to the index set of the entry of that kind; any other event becomes a
  new entry at the end.
\<close>

fun spec_merge :: "IndexedEvent list \<Rightarrow> nat \<times> EventRecord \<Rightarrow> IndexedEvent list" where
  "spec_merge acc (i, r) =
     (if kind_of r \<in> set (map (\<lambda>entry. kind_of (ev_record entry)) acc)
      then map (\<lambda>entry. if kind_of (ev_record entry) = kind_of r
                         then entry\<lparr>indexes := indexes entry @ [i]\<rparr> else entry) acc
      else acc @ [\<lparr>indexes = [i], ev_record = r\<rparr>])"

definition spec_dedupe :: "EventRecord list \<Rightarrow> IndexedEvent list" where
  "spec_dedupe batch =
     rev (foldl spec_merge []
            (filter (\<lambda>ir. \<not> spec_noise (snd ir)) (zip [0..<length batch] batch)))"

text \<open>
  An event record with the given section, method and payload, emitted by the first
  extrinsic of its block, without topics.
\<close>

definition mk_record :: "string \<Rightarrow> string \<Rightarrow> Codec list \<Rightarrow> EventRecord" where
  "mk_record s m d =
     \<lparr>phase = ''ApplyExtrinsic 0'',
      event = \<lparr>ev_section = s, ev_method = m, data = d\<rparr>,
      topics = []\<rparr>"

text \<open>The (section, method) pairs of the entries of an accumulator, in order.\<close>

definition kinds :: "IndexedEvent list \<Rightarrow> (string \<times> string) list" where
  "kinds acc = map (\<lambda>entry. kind_of (ev_record entry)) acc"

section \<open>useSystemEvents: the ingestion callback\<close>

text \<open>
  Errors. \<open>Error msg\<close> is an error object this module constructs itself
  (\<open>new Error('timeout')\<close>); \<open>External msg\<close> is a rejection or exception raised by a
  collaborator (an RPC call, the signer, the worker).
\<close>

datatype error = Error string | External string

text \<open>\<open>interface PrevHashes { block: string | null; event: string | null }\<close>\<close>

record PrevHashes =
  block :: "string option"
  event_hash :: "string option"

text \<open>The value of \<open>systemEventsAtom\<close>.\<close>

record SystemEvents =
  eventCount :: nat
  events :: "KeyedEvent list"

text \<open>
  What the callback reads of the header it fetches: \<open>header.number.unwrap()\<close> and
  \<open>header.hash.toHex()\<close>.
\<close>

record Header =
  hdr_number :: nat
  hdr_hash :: string

text \<open>The state of one \<open>useSystemEvents\<close> subscription: the ref and the atom.\<close>

record Ingestion =
  prevHashes :: PrevHashes
  systemEvents :: SystemEvents

definition initial_ingestion :: Ingestion where
  "initial_ingestion =
     \<lparr>prevHashes = \<lparr>block = None, event_hash = None\<rparr>,
      systemEvents = \<lparr>eventCount = 0, events = []\<rparr>\<rparr>"

text \<open>Decimal rendering of a number, as a template literal and \<open>join\<close> produce it.\<close>

definition digit_char :: "nat \<Rightarrow> char" where
  "digit_char d = char_of (48 + d)"

fun string_of_nat :: "nat \<Rightarrow> string" where
  "string_of_nat n =
     (if n < 10 then [digit_char n] else string_of_nat (n div 10) @ [digit_char (n mod 10)])"

declare string_of_nat.simps [simp del]

fun join :: "string \<Rightarrow> string list \<Rightarrow> string" where
  "join sep [] = []"
| "join sep [x] = x"
| "join sep (x # y # ys) = x @ sep @ join sep (y # ys)"

text \<open>
  The \<open>KeyedEvent\<close> built for one new entry: \<open>blockHash\<close>, \<open>blockNumber\<close>, \<open>indexes\<close>,
  \<open>record\<close> and the key
  \<^verbatim>\<open>`${blockNumber.toNumber()}-${blockHash}-${indexes.join('.')}`\<close>.
\<close>

definition keyed :: "Header \<Rightarrow> IndexedEvent \<Rightarrow> KeyedEvent" where
  "keyed header e =
     \<lparr>indexes = indexes e, ev_record = ev_record e,
      blockHash = Some (hdr_hash header),
      blockNumber = Some (hdr_number header),
      key = string_of_nat (hdr_number header) @ ''-'' @ hdr_hash header @ ''-'' @
            join ''.'' (map string_of_nat (indexes e))\<rparr>"

text \<open>
  \<open>events.filter((p) => !p.blockNumber?.eq(blockNumber))\<close>: an entry without a block
  number is kept.
\<close>

definition other_height :: "nat \<Rightarrow> KeyedEvent \<Rightarrow> bool" where
  "other_height n p = (case blockNumber p of None \<Rightarrow> True | Some m \<Rightarrow> m \<noteq> n)"

text \<open>
  One run of the subscription callback on the batch \<open>records\<close>, not interleaved with
  another run. \<open>xxhash\<close> stands for \<open>xxhashAsHex(stringToU8a(stringify(_)))\<close>, a function
  of the candidate list; \<open>getHeader\<close> is the outcome of
  \<open>await api.rpc.chain.getHeader(records.createdAtHash)\<close>. When that request fails the
  callback ends there, after it has already stored the new event hash.
\<close>

definition deliver ::
  "(IndexedEvent list \<Rightarrow> string) \<Rightarrow> error + Header \<Rightarrow> EventRecord list \<Rightarrow> Ingestion \<Rightarrow> Ingestion"
where
  "deliver xxhash getHeader records st =
     (let new = newEvents records;
          newEventHash = xxhash new;
          prev = prevHashes st
      in if Some newEventHash \<noteq> event_hash prev \<and> length new \<noteq> 0 then
           (let prev1 = prev\<lparr>event_hash := Some newEventHash\<rparr>
            in case getHeader of
                 Inl err \<Rightarrow> st\<lparr>prevHashes := prev1\<rparr>
               | Inr header \<Rightarrow>
                   if Some (hdr_hash header) \<noteq> block prev1 then
                     \<lparr>prevHashes = prev1\<lparr>block := Some (hdr_hash header)\<rparr>,
                      systemEvents =
                        \<lparr>eventCount = length records,
                         events = take MAX_EVENTS
                           (map (keyed header) new @
                            filter (other_height (hdr_number header))
                              (events (systemEvents st)))\<rparr>\<rparr>
                   else st\<lparr>prevHashes := prev1\<rparr>)
         else st\<lparr>systemEvents :=
                   \<lparr>eventCount = length records, events = events (systemEvents st)\<rparr>\<rparr>)"

text \<open>A sequence of deliveries, each a fetched header and a batch, applied in order.\<close>

definition deliver_all ::
  "(IndexedEvent list \<Rightarrow> string) \<Rightarrow> ((error + Header) \<times> EventRecord list) list \<Rightarrow>
   Ingestion \<Rightarrow> Ingestion"
where
  "deliver_all xxhash ds st = foldl (\<lambda>s d. deliver xxhash (fst d) (snd d) s) st ds"

section \<open>signAndSend\<close>

text \<open>The status of a lifecycle notification (\<open>result.status\<close>).\<close>

datatype ExtrinsicStatus =
    Future | Ready | Broadcast | InBlock string | Retracted | FinalityTimeout
  | Finalized string | Usurped | Dropped | Invalid

text \<open>
  What the callback reads of a notification: \<open>result.status\<close>, \<open>result.events\<close> and
  \<open>result.toHuman().events\<close>.
\<close>

record SubmittableResult =
  status :: ExtrinsicStatus
  result_events :: "EventRecord list"
  human_events :: AnyJson

text \<open>The value the promise resolves with, \<open>{ hash, events }\<close>, and what it rejects with.\<close>

record Receipt =
  hash :: string
  receipt_events :: AnyJson

datatype reason = Failure Codec | Message string

datatype settlement = Resolved Receipt | Rejected reason

text \<open>
  The state of one call of \<open>signAndSend\<close>: the returned promise (\<open>None\<close> while pending),
  the number of calls of \<open>unsub\<close>, and the rejection of the async executor itself, which
  no handler receives.
\<close>

record Submission =
  promise :: "settlement option"
  unsub_calls :: nat
  uncaught :: "error option"

definition new_submission :: Submission where
  "new_submission = \<lparr>promise = None, unsub_calls = 0, uncaught = None\<rparr>"

text \<open>\<open>resolve\<close> and \<open>reject\<close> of a promise: only the first call settles it.\<close>

definition resolve :: "Receipt \<Rightarrow> Submission \<Rightarrow> Submission" where
  "resolve v s = (case promise s of None \<Rightarrow> s\<lparr>promise := Some (Resolved v)\<rparr> | Some _ \<Rightarrow> s)"

definition reject :: "reason \<Rightarrow> Submission \<Rightarrow> Submission" where
  "reject r s = (case promise s of None \<Rightarrow> s\<lparr>promise := Some (Rejected r)\<rparr> | Some _ \<Rightarrow> s)"

definition unsub :: "Submission \<Rightarrow> Submission" where
  "unsub s = s\<lparr>unsub_calls := Suc (unsub_calls s)\<rparr>"

text \<open>\<open>section === 'system' && method === 'ExtrinsicFailed'\<close>\<close>

definition extrinsic_failed :: "EventRecord \<Rightarrow> bool" where
  "extrinsic_failed e =
     (ev_section (event e) = ''system'' \<and> ev_method (event e) = ''ExtrinsicFailed'')"

text \<open>\<open>data[0]\<close>: \<open>undefined\<close> (here \<open>None\<close>) when the payload is empty.\<close>

fun first_item :: "Codec list \<Rightarrow> Codec option" where
  "first_item [] = None"
| "first_item (x # xs) = Some x"

text \<open>
  The loop over \<open>result.events\<close>: \<open>error\<close> starts undefined and is overwritten by
  \<open>data[0]\<close> of every matching event, so the last one decides.
\<close>

definition scan_events :: "EventRecord list \<Rightarrow> Codec option" where
  "scan_events es =
     foldl (\<lambda>error e. if extrinsic_failed e then first_item (data (event e)) else error)
       None es"

text \<open>
  The status callback. A codec value is an object, hence truthy: \<open>if (error)\<close> tests
  whether \<open>error\<close> is defined.
\<close>

definition on_result :: "SubmittableResult \<Rightarrow> Submission \<Rightarrow> Submission" where
  "on_result result s =
     (case status result of
        InBlock h \<Rightarrow>
          (let error = scan_events (result_events result);
               s1 = unsub s
           in case error of
                Some err \<Rightarrow> reject (Failure err) s1
              | None \<Rightarrow> resolve \<lparr>hash = h, receipt_events = human_events result\<rparr> s1)
      | Invalid \<Rightarrow> reject (Message ''Invalid transaction'') (unsub s)
      | _ \<Rightarrow> s)"

text \<open>
  The notifications that the callback receives, in order. The callback keeps no record of
  having settled: it calls \<open>unsub\<close> on every notification of status InBlock or Invalid
  that still reaches it.
\<close>

fun notify :: "SubmittableResult list \<Rightarrow> Submission \<Rightarrow> Submission" where
  "notify [] s = s"
| "notify (r # rs) s = notify rs (on_result r s)"

text \<open>
  \<open>signAndSend\<close>, given what \<open>await target.signAndSend(address, { signer }, callback)\<close>
  does: it fails with an error, or it establishes the subscription that then delivers the
  notifications. The executor is an async function: when the \<open>await\<close> fails, the promise of
  the executor is rejected, and the promise handed to the caller is never settled.
\<close>

fun signAndSend :: "error + SubmittableResult list \<Rightarrow> Submission" where
  "signAndSend (Inl e) = new_submission\<lparr>uncaught := Some e\<rparr>"
| "signAndSend (Inr notifications) = notify notifications new_submission"


section \<open>useConnectApi\<close>

datatype ApiConnectionStatus = Disconnected | Connecting | Connected | Error_status

text \<open>An API instance is identified by the endpoint it was created for.\<close>

type_synonym ApiPromise = string

text \<open>
  The four atoms of the connection, a clock in milliseconds, and the deadlines of the
  pending timers set by \<open>setTimeout(..., 10000)\<close>. Every timer runs the same callback, and
  no timer is ever cleared.
\<close>

record Connection =
  rpcEndpoint :: string
  rpcEndpointError :: string
  rpcApiInstance :: "ApiPromise option"
  rpcApiStatus :: ApiConnectionStatus
  now :: nat
  timers :: "nat list"

definition initial_connection :: Connection where
  "initial_connection =
     \<lparr>rpcEndpoint = [], rpcEndpointError = [], rpcApiInstance = None,
      rpcApiStatus = Disconnected, now = 0, timers = []\<rparr>"

text \<open>
  The body of the effect, run for the current value of the endpoint atom.
  \<open>createApiInstance\<close> is the outcome of \<open>createApiInstance(endpointUrl)\<close>: the constructor
  of the provider throws for an endpoint it cannot use. \<open>fn\<close> is an async function that is
  not awaited: up to \<open>await api.isReady\<close> it runs at once, so the timer is set at the moment
  the status becomes \<open>connecting\<close>; when \<open>createApiInstance\<close> throws, the promise of \<open>fn\<close> is
  rejected (the \<open>try\<close> around \<open>fn()\<close> catches nothing), no handler is registered and no
  timer is set.
\<close>

definition connect_effect :: "(string \<Rightarrow> error + ApiPromise) \<Rightarrow> Connection \<Rightarrow> Connection" where
  "connect_effect createApiInstance c =
     (let c1 = c\<lparr>rpcEndpointError := []\<rparr>
      in if rpcEndpoint c = [] then c1\<lparr>rpcApiStatus := Disconnected, rpcApiInstance := None\<rparr>
         else (let c2 = c1\<lparr>rpcApiStatus := Connecting\<rparr>
               in case createApiInstance (rpcEndpoint c) of
                    Inl err \<Rightarrow> c2
                  | Inr api \<Rightarrow> c2\<lparr>timers := timers c @ [now c + 10000]\<rparr>))"

text \<open>
  A callback \<open>h\<close> that writes the atoms, followed by the render it causes: the effect
  depends on the endpoint atom and runs again when the callback has changed it.
\<close>

definition dispatch ::
  "(string \<Rightarrow> error + ApiPromise) \<Rightarrow> (Connection \<Rightarrow> Connection) \<Rightarrow> Connection \<Rightarrow> Connection"
where
  "dispatch createApiInstance h c =
     (let c' = h c
      in if rpcEndpoint c' \<noteq> rpcEndpoint c then connect_effect createApiInstance c' else c')"

text \<open>Setting the endpoint atom.\<close>

definition connect ::
  "(string \<Rightarrow> error + ApiPromise) \<Rightarrow> string \<Rightarrow> Connection \<Rightarrow> Connection"
where
  "connect createApiInstance endpointUrl c =
     dispatch createApiInstance (\<lambda>c. c\<lparr>rpcEndpoint := endpointUrl\<rparr>) c"

text \<open>\<open>ws.on('error', ...)\<close>\<close>

definition on_ws_error :: "bool \<Rightarrow> Connection \<Rightarrow> Connection" where
  "on_ws_error isFirefox c =
     c\<lparr>rpcApiInstance := None, rpcEndpoint := [],
       rpcEndpointError :=
         (if isFirefox
          then ''RPC Endpoint is unreachable. If you are using Firefox, please switch to Chrome and try again.''
          else ''RPC Endpoint is unreachable.'')\<rparr>"

text \<open>\<open>api.on('connected', ...)\<close>, once \<open>await api.isReady\<close> has returned.\<close>

definition on_connected :: "Connection \<Rightarrow> Connection" where
  "on_connected c = c\<lparr>rpcApiStatus := Connected\<rparr>"

text \<open>\<open>api.on('disconnected', ...)\<close>\<close>

definition on_disconnected :: "Connection \<Rightarrow> Connection" where
  "on_disconnected c =
     c\<lparr>rpcApiStatus :=
         (if rpcApiStatus c = Error_status then rpcApiStatus c else Disconnected),
       rpcEndpoint := []\<rparr>"

text \<open>\<open>onError\<close>, the handler of \<open>api.on('error', ...)\<close>.\<close>

definition on_api_error :: "Connection \<Rightarrow> Connection" where
  "on_api_error c =
     c\<lparr>rpcApiStatus := Error_status, rpcEndpointError := ''RPC Error'',
       rpcApiInstance := None, rpcEndpoint := []\<rparr>"

text \<open>The end of \<open>fn\<close>: \<open>await api.isReady; setApiInstance(api)\<close>.\<close>

definition on_api_ready :: "ApiPromise \<Rightarrow> Connection \<Rightarrow> Connection" where
  "on_api_ready api c = c\<lparr>rpcApiInstance := Some api\<rparr>"

text \<open>The callback of the timer.\<close>

definition on_timeout :: "Connection \<Rightarrow> Connection" where
  "on_timeout c =
     (if rpcApiStatus c \<noteq> Connected
      then c\<lparr>rpcApiInstance := None, rpcEndpoint := [],
             rpcEndpointError := ''RPC Endpoint is unreachable'',
             rpcApiStatus := Error_status\<rparr>
      else c)"

text \<open>
  The clock moves on by \<open>d\<close> milliseconds with no other event in between: every timer whose
  deadline is reached runs its callback, in the order the timers were set, each followed by
  the render it causes. Timers are taken to fire on time.
\<close>

definition advance :: "(string \<Rightarrow> error + ApiPromise) \<Rightarrow> nat \<Rightarrow> Connection \<Rightarrow> Connection" where
  "advance createApiInstance d c =
     (let t = now c + d;
          due = filter (\<lambda>deadline. deadline \<le> t) (timers c);
          pending = filter (\<lambda>deadline. t < deadline) (timers c)
      in foldl (\<lambda>s deadline. dispatch createApiInstance on_timeout s)
           (c\<lparr>now := t, timers := pending\<rparr>) due)"

section \<open>checkUntil and blockBarrier\<close>

text \<open>
  \<open>checkUntil(async_fn, timeout)\<close>. The calls of \<open>async_fn\<close> are numbered from 0; the
  \<open>k\<close>-th call fails with an error or yields a truthy or falsy value. \<open>cost k\<close> is the time
  in milliseconds from the head of the \<open>k\<close>-th iteration to the clock reading that follows
  the call, and \<open>sleep(100)\<close> takes 100 ms (a timer that is late adds to the cost of the
  next iteration). \<open>elapsed\<close> is the time since \<open>t0\<close> at the head of the iteration.
  The result carries the number of calls of \<open>async_fn\<close> that were made.
\<close>

function checkUntil_loop ::
  "(nat \<Rightarrow> error + bool) \<Rightarrow> (nat \<Rightarrow> nat) \<Rightarrow> int \<Rightarrow> nat \<Rightarrow> nat \<Rightarrow> (error + unit) \<times> nat"
where
  "checkUntil_loop async_fn cost timeout k elapsed =
     (case async_fn k of
        Inl e \<Rightarrow> (Inl e, Suc k)
      | Inr True \<Rightarrow> (Inr (), Suc k)
      | Inr False \<Rightarrow>
          (let t = elapsed + cost k
           in if int t \<ge> timeout then (Inl (Error ''timeout''), Suc k)
              else checkUntil_loop async_fn cost timeout (Suc k) (t + 100)))"
  by pat_completeness auto
termination
  by (relation "measure (\<lambda>(async_fn, cost, timeout, k, elapsed). nat (timeout - int elapsed))")
    auto

declare checkUntil_loop.simps [simp del]

definition checkUntil ::
  "(nat \<Rightarrow> error + bool) \<Rightarrow> (nat \<Rightarrow> nat) \<Rightarrow> int \<Rightarrow> (error + unit) \<times> nat"
where
  "checkUntil async_fn cost timeout = checkUntil_loop async_fn cost timeout 0 0"

text \<open>The time since \<open>t0\<close> at the head of the \<open>k\<close>-th iteration.\<close>

fun head_time :: "(nat \<Rightarrow> nat) \<Rightarrow> nat \<Rightarrow> nat" where
  "head_time cost 0 = 0"
| "head_time cost (Suc k) = head_time cost k + cost k + 100"

text \<open>
  The chain as \<open>blockBarrier\<close> reads it, each request with its outcome at a given time (in
  milliseconds after the call of \<open>blockBarrier\<close>): \<open>getFinalizedHead\<close> answers the hash of
  the finalized block, \<open>getHeader\<close> the best header, of which the number is read.
\<close>

record ChainRpc =
  chain_getFinalizedHead :: "nat \<Rightarrow> error + string"
  chain_getHeader :: "nat \<Rightarrow> error + nat"

text \<open>
  \<open>blockBarrier(api, prpc, finalized, timeout)\<close>; \<open>getInfo k\<close> is the outcome of the \<open>k\<close>-th
  \<open>prpc.getInfo({})\<close>, the \<open>blocknum\<close> of the worker. Both modes go on with
  \<open>head.number.toNumber()\<close>: a block hash has no \<open>number\<close>, so in the finalized mode this
  throws a TypeError before any poll.
\<close>

definition blockBarrier ::
  "ChainRpc \<Rightarrow> (nat \<Rightarrow> error + nat) \<Rightarrow> (nat \<Rightarrow> nat) \<Rightarrow> bool \<Rightarrow> int \<Rightarrow> (error + unit) \<times> nat"
where
  "blockBarrier api getInfo cost finalized timeout =
     (if finalized
      then (case chain_getFinalizedHead api 0 of
              Inl e \<Rightarrow> (Inl e, 0)
            | Inr head \<Rightarrow> (Inl (External ''TypeError''), 0))
      else (case chain_getHeader api 0 of
              Inl e \<Rightarrow> (Inl e, 0)
            | Inr chainHeight \<Rightarrow>
                checkUntil
                  (\<lambda>k. case getInfo k of
                         Inl e \<Rightarrow> Inl e
                       | Inr blocknum \<Rightarrow> Inr (blocknum > chainHeight))
                  cost timeout))"

text \<open>The defaults of the parameters: \<open>finalized=false, timeout=4*6000\<close>.\<close>

definition blockBarrier_default ::
  "ChainRpc \<Rightarrow> (nat \<Rightarrow> error + nat) \<Rightarrow> (nat \<Rightarrow> nat) \<Rightarrow> (error + unit) \<times> nat"
where
  "blockBarrier_default api getInfo cost = blockBarrier api getInfo cost False (4 * 6000)"

text \<open>
  A worker that reports the heights of a list, one per poll, and stays at the last one;
  each poll answers at once.
\<close>

definition heights :: "nat list \<Rightarrow> nat \<Rightarrow> error + nat" where
  "heights hs k = Inr (if k < length hs then hs ! k else last hs)"

section \<open>useRunner\<close>

text \<open>
  The parts of a message specification and of a stored contract that the runner reads, and
  \<open>MethodRunResult\<close>. The inputs are a record from argument labels to values.
\<close>

record ContractMetaMessage =
  label :: string
  mutates :: bool
  msg_args :: "string list"

record LocalContractInfo =
  contractId :: string
  metadata :: string

type_synonym inputs = "(string \<times> AnyJson) list"

record MethodRunResult =
  contract :: LocalContractInfo
  methodSpec :: ContractMetaMessage
  succeed :: bool
  args :: inputs
  run_output :: "AnyJson option"
  completedAt :: nat

text \<open>
  What the runner reads of a query result: \<open>queryResult.result.isOk\<close>,
  \<open>queryResult.result.toHuman()\<close> and \<open>queryResult.output?.toHuman()\<close>, which is undefined
  when there is no output.
\<close>

record ContractCallOutcome =
  result_isOk :: bool
  result_toHuman :: AnyJson
  output_toHuman :: "AnyJson option"

text \<open>The state the runner writes: its loading flag and \<open>resultsAtom\<close>.\<close>

record Runner =
  isLoading :: bool
  results :: "MethodRunResult list"

text \<open>\<open>dispatchResultsAtom\<close>: \<open>set(resultsAtom, [ result, ...prev ])\<close>\<close>

definition appendResult :: "MethodRunResult \<Rightarrow> Runner \<Rightarrow> Runner" where
  "appendResult result st = st\<lparr>results := result # results st\<rparr>"

text \<open>
  How one invocation ends: it returns, it throws an error or the reason of a rejected
  submission, or it waits for ever on a promise that is never settled.
\<close>

datatype completion = Returned | Threw error | Threw_reason reason | Pending

text \<open>
  The surroundings of one invocation: the values of the atoms, and the outcome of every
  call the runner awaits. \<open>queryMethods\<close> and \<open>txMethods\<close> are the tables from message
  identifier to method name built from the contract instance.
\<close>

record RunnerEnv =
  env_api :: bool
  env_account :: bool
  env_methodSpec :: "ContractMetaMessage option"
  env_contract :: "LocalContractInfo option"
  apiCopy :: "error + unit"
  created :: "error + unit"
  queryMethods :: "(string \<times> string) list"
  txMethods :: "(string \<times> string) list"
  web3FromSource :: "error + unit"
  submission :: "error + SubmittableResult list"
  createPruntimeApi :: "error + unit"
  env_chain :: ChainRpc
  env_getInfo :: "nat \<Rightarrow> error + nat"
  env_cost :: "nat \<Rightarrow> nat"
  signCertificate :: "error + unit"
  queryResult :: "error + ContractCallOutcome"
  date_now :: nat

text \<open>
  The tables are plain objects built by \<open>R.fromPairs\<close>, where a later pair replaces an
  earlier one of the same key. \<open>truthy_entry\<close>: the table has an entry of its own for the
  label, with a method name that is not the empty string.
\<close>

definition truthy_entry :: "(string \<times> string) list \<Rightarrow> string \<Rightarrow> bool" where
  "truthy_entry table l = (case map_of (rev table) l of None \<Rightarrow> False | Some m \<Rightarrow> m \<noteq> [])"

text \<open>
  \<open>table[label]\<close> as a condition: besides its own entries a plain object answers for the
  properties it inherits, all of them truthy.
\<close>

definition Object_prototype :: "string list" where
  "Object_prototype =
     [''constructor'', ''hasOwnProperty'', ''isPrototypeOf'', ''propertyIsEnumerable'',
      ''toLocaleString'', ''toString'', ''valueOf'', ''__proto__'', ''__defineGetter__'',
      ''__defineSetter__'', ''__lookupGetter__'', ''__lookupSetter__'']"

definition truthy_lookup :: "(string \<times> string) list \<Rightarrow> string \<Rightarrow> bool" where
  "truthy_lookup table l =
     (case map_of (rev table) l of
        None \<Rightarrow> l \<in> set Object_prototype
      | Some m \<Rightarrow> m \<noteq> [])"

text \<open>The mutating branch: \<open>signAndSend\<close>, then \<open>createPruntimeApi\<close> and \<open>blockBarrier\<close>.\<close>

definition run_tx :: "RunnerEnv \<Rightarrow> ContractMetaMessage \<Rightarrow> Runner \<Rightarrow> completion \<times> Runner" where
  "run_tx env spec st =
     (if \<not> truthy_entry (txMethods env) (label spec)
      then (Threw (External ''TypeError''), st)
      else case promise (signAndSend (submission env)) of
             None \<Rightarrow> (Pending, st)
           | Some (Rejected r) \<Rightarrow> (Threw_reason r, st)
           | Some (Resolved r1) \<Rightarrow>
               (case createPruntimeApi env of
                  Inl e \<Rightarrow> (Threw e, st)
                | Inr prpc \<Rightarrow>
                    (case fst (blockBarrier_default (env_chain env) (env_getInfo env) (env_cost env)) of
                       Inl e \<Rightarrow> (Threw e, st)
                     | Inr u \<Rightarrow> (Returned, st))))"

text \<open>The query branch: \<open>signCertificate\<close>, the query, and the recorded result.\<close>

definition run_query ::
  "RunnerEnv \<Rightarrow> LocalContractInfo \<Rightarrow> ContractMetaMessage \<Rightarrow> inputs \<Rightarrow> Runner \<Rightarrow> completion \<times> Runner"
where
  "run_query env c spec ins st =
     (case signCertificate env of
        Inl e \<Rightarrow> (Threw e, st)
      | Inr cert \<Rightarrow>
          if \<not> truthy_entry (queryMethods env) (label spec)
          then (Threw (External ''TypeError''), st)
          else case queryResult env of
                 Inl e \<Rightarrow> (Threw e, st)
               | Inr qr \<Rightarrow>
                   if result_isOk qr
                   then (Returned,
                         appendResult
                           \<lparr>contract = c, methodSpec = spec, succeed = True, args = ins,
                            run_output = output_toHuman qr, completedAt = date_now env\<rparr> st)
                   else (Returned,
                         appendResult
                           \<lparr>contract = c, methodSpec = spec, succeed = False, args = ins,
                            run_output = Some (result_toHuman qr), completedAt = date_now env\<rparr> st))"

text \<open>The body of the \<open>try\<close> block.\<close>

definition run_body :: "RunnerEnv \<Rightarrow> inputs \<Rightarrow> Runner \<Rightarrow> completion \<times> Runner" where
  "run_body env ins st =
     (case env_methodSpec env of
        None \<Rightarrow> (Returned, st)
      | Some spec \<Rightarrow>
          if \<not> env_api env \<or> \<not> env_account env then (Returned, st)
          else case apiCopy env of
                 Inl e \<Rightarrow> (Threw e, st)
               | Inr a \<Rightarrow>
                   (case env_contract env of
                      None \<Rightarrow> (Threw (External ''TypeError''), st)
                    | Some c \<Rightarrow>
                        (case created env of
                           Inl e \<Rightarrow> (Threw e, st)
                         | Inr p \<Rightarrow>
                             if \<not> truthy_lookup (queryMethods env) (label spec) \<and>
                                \<not> truthy_lookup (txMethods env) (label spec)
                             then (Returned, st)
                             else case web3FromSource env of
                                    Inl e \<Rightarrow> (Threw e, st)
                                  | Inr signer \<Rightarrow>
                                      if mutates spec then run_tx env spec st
                                      else run_query env c spec ins st)))"

text \<open>
  The callback returned by \<open>useRunner\<close>: \<open>setIsLoading(true)\<close>, the body, and
  \<open>setIsLoading(false)\<close> in the \<open>finally\<close> block, which an invocation that waits for ever
  does not reach.
\<close>

definition runner_fn :: "RunnerEnv \<Rightarrow> inputs \<Rightarrow> Runner \<Rightarrow> completion \<times> Runner" where
  "runner_fn env ins st =
     (case run_body env ins (st\<lparr>isLoading := True\<rparr>) of
        (Pending, st') \<Rightarrow> (Pending, st')
      | (c, st') \<Rightarrow> (c, st'\<lparr>isLoading := False\<rparr>))"

section \<open>Verified properties\<close>

subsection \<open>The deduplication pipeline\<close>

lemma keep_event_spec: "keep_event e = (\<not> spec_noise (ev_record e))"
  by (auto simp: keep_event_def spec_noise_def Let_def)

lemma combine_Nil: "combine [] e = [e]"
  by (simp add: combine_def extract_Nil_code)

lemma combine_Cons:
  "combine (p # ps) e =
     (if same_kind e p then p\<lparr>indexes := indexes p @ indexes e\<rparr> # ps else p # combine ps e)"
  by (simp add: combine_def extract_Cons_code split: option.splits)

lemma same_kind_kind_of:
  "same_kind e p = (kind_of (ev_record p) = kind_of (ev_record e))"
  by (auto simp: same_kind_def kind_of_def)

lemma kinds_combine:
  "kinds (combine acc e) =
     (if kind_of (ev_record e) \<in> set (kinds acc) then kinds acc
      else kinds acc @ [kind_of (ev_record e)])"
  by (induction acc) (auto simp: combine_Nil combine_Cons kinds_def same_kind_kind_of)

lemma distinct_kinds_combine:
  "distinct (kinds acc) \<Longrightarrow> distinct (kinds (combine acc e))"
  by (simp add: kinds_combine)

lemma distinct_kinds_foldl:
  "distinct (kinds acc) \<Longrightarrow> distinct (kinds (foldl combine acc es))"
  by (induction es arbitrary: acc) (simp_all add: distinct_kinds_combine)

lemma combine_spec_merge:
  "distinct (kinds acc) \<Longrightarrow>
   combine acc \<lparr>indexes = [i], ev_record = r\<rparr> = spec_merge acc (i, r)"
proof (induction acc)
  case Nil
  then show ?case by (simp add: combine_Nil)
next
  case (Cons p ps)
  show ?case
  proof (cases "kind_of (ev_record p) = kind_of r")
    case True
    with Cons.prems have "kind_of r \<notin> set (kinds ps)"
      by (simp add: kinds_def)
    then have "\<And>x. x \<in> set ps \<Longrightarrow> kind_of (ev_record x) \<noteq> kind_of r"
      unfolding kinds_def by (metis (mono_tags, lifting) image_eqI set_map)
    then have "map (\<lambda>entry. if kind_of (ev_record entry) = kind_of r
                 then entry\<lparr>indexes := indexes entry @ [i]\<rparr> else entry) ps = ps"
      by (intro map_idI) simp
    with True show ?thesis
      by (simp add: combine_Cons same_kind_kind_of)
  next
    case False
    with Cons show ?thesis
      by (auto simp: combine_Cons same_kind_kind_of kinds_def)
  qed
qed

lemma foldl_combine_spec:
  "distinct (kinds acc) \<Longrightarrow>
   foldl combine acc (map (\<lambda>(i, r). \<lparr>indexes = [i], ev_record = r\<rparr>) irs) =
   foldl spec_merge acc irs"
proof (induction irs arbitrary: acc)
  case Nil
  then show ?case by simp
next
  case (Cons ir irs)
  obtain i r where ir: "ir = (i, r)" by (cases ir)
  have "distinct (kinds (combine acc \<lparr>indexes = [i], ev_record = r\<rparr>))"
    using Cons.prems by (rule distinct_kinds_combine)
  then show ?case
    using Cons.IH[of "combine acc \<lparr>indexes = [i], ev_record = r\<rparr>"] Cons.prems
    by (simp add: ir combine_spec_merge)
qed

lemma filter_index_records:
  "filter keep_event (index_records records) =
   map (\<lambda>(i, r). \<lparr>indexes = [i], ev_record = r\<rparr>)
     (filter (\<lambda>ir. \<not> spec_noise (snd ir)) (zip [0..<length records] records))"
  by (simp add: index_records_def filter_map comp_def keep_event_spec enumerate_eq_zip
      case_prod_beta)

lemma newEvents_spec: "newEvents records = spec_dedupe records"
  by (simp add: newEvents_def spec_dedupe_def filter_index_records foldl_combine_spec kinds_def)

lemma mk_record_sel:
  "ev_section (event (mk_record s m d)) = s"
  "ev_method (event (mk_record s m d)) = m"
  "data (event (mk_record s m d)) = d"
  by (simp_all add: mk_record_def)

lemma ex1: "newEvents [mk_record ''A'' ''m'' d0, mk_record ''A'' ''m'' d1, mk_record ''B'' ''n'' d2] =
   [\<lparr>indexes = [2], ev_record = mk_record ''B'' ''n'' d2\<rparr>,
    \<lparr>indexes = [0, 1], ev_record = mk_record ''A'' ''m'' d0\<rparr>]"
  by (simp add: newEvents_def index_records_def keep_event_def combine_def mk_record_sel
      same_kind_def extract_Cons_code extract_Nil_code)


text \<open>
  Claim C2. The pipeline of the subscription callback (\<open>newEvents\<close>, from the source) is
  the function the specification describes (\<open>spec_dedupe\<close>): pair each event with its
  index, drop the noise table, merge left to right by (section, method), reverse. On the
  batch \<open>[(A,m,0),(A,m,1),(B,n,2)]\<close> it yields \<open>[(B,n,[2]),(A,m,[0,1])]\<close>. The output is a
  function of the batch alone, so identical batches yield identical output.
\<close>

theorem C2_dedupe_refines_spec:
  "newEvents records = spec_dedupe records
   \<and> newEvents [mk_record ''A'' ''m'' d0, mk_record ''A'' ''m'' d1, mk_record ''B'' ''n'' d2] =
       [\<lparr>indexes = [2], ev_record = mk_record ''B'' ''n'' d2\<rparr>,
        \<lparr>indexes = [0, 1], ev_record = mk_record ''A'' ''m'' d0\<rparr>]"
  by (rule conjI[OF newEvents_spec ex1])

text \<open>The refinement at a batch with noise, a repeated kind and a single kind.\<close>

theorem C2_dedupe_witness:
  "spec_dedupe
     [mk_record ''system'' ''ExtrinsicSuccess'' [], mk_record ''balances'' ''Deposit'' [''1''],
      mk_record ''balances'' ''Transfer'' [''2''], mk_record ''inclusion'' ''CandidateBacked'' [],
      mk_record ''balances'' ''Transfer'' [''3''], mk_record ''contracts'' ''Called'' []] =
   [\<lparr>indexes = [5], ev_record = mk_record ''contracts'' ''Called'' []\<rparr>,
    \<lparr>indexes = [2, 4], ev_record = mk_record ''balances'' ''Transfer'' [''2'']\<rparr>]"
proof -
  let ?batch = "[mk_record ''system'' ''ExtrinsicSuccess'' [], mk_record ''balances'' ''Deposit'' [''1''],
      mk_record ''balances'' ''Transfer'' [''2''], mk_record ''inclusion'' ''CandidateBacked'' [],
      mk_record ''balances'' ''Transfer'' [''3''], mk_record ''contracts'' ''Called'' []]"
  have "newEvents ?batch =
   [\<lparr>indexes = [5], ev_record = mk_record ''contracts'' ''Called'' []\<rparr>,
    \<lparr>indexes = [2, 4], ev_record = mk_record ''balances'' ''Transfer'' [''2'']\<rparr>]"
    by (simp add: newEvents_def index_records_def keep_event_def combine_def mk_record_sel
        same_kind_def extract_Cons_code extract_Nil_code)
  with C2_dedupe_refines_spec[of ?batch] show ?thesis by simp
qed

subsection \<open>The ingestion callback\<close>

lemma length_deliver_le:
  "length (events (systemEvents st)) \<le> MAX_EVENTS \<Longrightarrow>
   length (events (systemEvents (deliver xxhash getHeader records st))) \<le> MAX_EVENTS"
  by (auto simp: deliver_def Let_def split: sum.splits)

lemma length_deliver_all_le:
  "length (events (systemEvents st)) \<le> MAX_EVENTS \<Longrightarrow>
   length (events (systemEvents (deliver_all xxhash ds st))) \<le> MAX_EVENTS"
  unfolding deliver_all_def
  by (induction ds arbitrary: st) (simp_all add: length_deliver_le)

lemma deliver_new_block:
  assumes "newEvents records \<noteq> []"
    and "Some (xxhash (newEvents records)) \<noteq> event_hash (prevHashes st)"
    and "Some (hdr_hash header) \<noteq> block (prevHashes st)"
  shows "deliver xxhash (Inr header) records st =
     \<lparr>prevHashes = \<lparr>block = Some (hdr_hash header),
                    event_hash = Some (xxhash (newEvents records))\<rparr>,
      systemEvents =
        \<lparr>eventCount = length records,
         events = take MAX_EVENTS
           (map (keyed header) (newEvents records) @
            filter (other_height (hdr_number header)) (events (systemEvents st)))\<rparr>\<rparr>"
  using assms by (simp add: deliver_def Let_def)

lemma other_height_iff: "other_height n p = (blockNumber p \<noteq> Some n)"
  by (simp add: other_height_def split: option.splits)

lemma drop_take_append: "drop (length xs) (take k (xs @ ys)) = take (k - length xs) ys"
  by (cases "length xs \<le> k") (simp_all add: drop_take min_def)

text \<open>
  Claim C3. A delivery whose candidate list is non-empty, whose content hash differs from
  the stored event hash and whose fetched block hash differs from the stored block hash
  replaces the stored list by: the newly built keyed events, followed by the stored
  entries whose block number differs from the new block's, cut to the first 75. So the
  list has at most 75 entries, everything after the new entries is a stored entry of
  another height (the entries of height H are evicted), and from the initial state no
  sequence of deliveries makes the list longer than 75.
\<close>

theorem C3_new_block_replaces_log:
  assumes "newEvents records \<noteq> []"
    and "Some (xxhash (newEvents records)) \<noteq> event_hash (prevHashes st)"
    and "Some (hdr_hash header) \<noteq> block (prevHashes st)"
  shows "events (systemEvents (deliver xxhash (Inr header) records st)) =
           take 75 (map (keyed header) (newEvents records) @
                    filter (\<lambda>p. blockNumber p \<noteq> Some (hdr_number header))
                      (events (systemEvents st)))
       \<and> length (events (systemEvents (deliver xxhash (Inr header) records st))) \<le> 75
       \<and> (\<forall>p \<in> set (drop (length (newEvents records))
                    (events (systemEvents (deliver xxhash (Inr header) records st)))).
             p \<in> set (events (systemEvents st)) \<and> blockNumber p \<noteq> Some (hdr_number header))
       \<and> length (events (systemEvents (deliver_all xxhash ds initial_ingestion))) \<le> 75"
proof -
  let ?new = "map (keyed header) (newEvents records)"
  let ?old = "filter (\<lambda>p. blockNumber p \<noteq> Some (hdr_number header)) (events (systemEvents st))"
  have ev: "events (systemEvents (deliver xxhash (Inr header) records st)) = take 75 (?new @ ?old)"
    using assms by (simp add: deliver_new_block MAX_EVENTS_def other_height_iff[abs_def])
  have "drop (length ?new) (take 75 (?new @ ?old)) = take (75 - length ?new) ?old"
    by (rule drop_take_append)
  then have "drop (length (newEvents records)) (take 75 (?new @ ?old))
        = take (75 - length ?new) ?old"
    by (simp only: length_map)
  then have sub: "set (drop (length (newEvents records)) (take 75 (?new @ ?old))) \<subseteq> set ?old"
    by (metis set_take_subset)
  have evict: "\<forall>p \<in> set (drop (length (newEvents records)) (take 75 (?new @ ?old))).
      p \<in> set (events (systemEvents st)) \<and> blockNumber p \<noteq> Some (hdr_number header)"
  proof
    fix p
    assume "p \<in> set (drop (length (newEvents records)) (take 75 (?new @ ?old)))"
    with sub have "p \<in> set ?old" by (rule subsetD)
    then show "p \<in> set (events (systemEvents st)) \<and> blockNumber p \<noteq> Some (hdr_number header)"
      by simp
  qed
  have inv: "length (events (systemEvents (deliver_all xxhash ds initial_ingestion))) \<le> 75"
    using length_deliver_all_le[of initial_ingestion xxhash ds]
    by (simp add: initial_ingestion_def MAX_EVENTS_def)
  have len: "length (take 75 (?new @ ?old)) \<le> 75"
    by simp
  show ?thesis
    unfolding ev by (rule conjI[OF refl conjI[OF len conjI[OF evict inv]]])
qed

text \<open>
  A fork at the tip: the log holds an entry of block 7 (hash 0xaa) and one of block 6; a
  new block 7 with hash 0xbb arrives.
\<close>

theorem C3_new_block_witness:
  "(let xxhash = (\<lambda>es. concat (map (\<lambda>e. ev_method (event (ev_record e))) es));
        old7 = keyed \<lparr>hdr_number = 7, hdr_hash = ''0xaa''\<rparr>
                 \<lparr>indexes = [1], ev_record = mk_record ''balances'' ''Transfer'' []\<rparr>;
        old6 = keyed \<lparr>hdr_number = 6, hdr_hash = ''0x99''\<rparr>
                 \<lparr>indexes = [2], ev_record = mk_record ''contracts'' ''Called'' []\<rparr>;
        st = \<lparr>prevHashes = \<lparr>block = Some ''0xaa'', event_hash = Some ''Transfer''\<rparr>,
              systemEvents = \<lparr>eventCount = 2, events = [old7, old6]\<rparr>\<rparr>;
        header = \<lparr>hdr_number = 7, hdr_hash = ''0xbb''\<rparr>;
        records = [mk_record ''system'' ''ExtrinsicSuccess'' [],
                   mk_record ''contracts'' ''Instantiated'' []]
    in newEvents records \<noteq> []
       \<and> Some (xxhash (newEvents records)) \<noteq> event_hash (prevHashes st)
       \<and> Some (hdr_hash header) \<noteq> block (prevHashes st)
       \<and> events (systemEvents (deliver xxhash (Inr header) records st)) =
           [keyed header \<lparr>indexes = [1], ev_record = mk_record ''contracts'' ''Instantiated'' []\<rparr>,
            old6])"
proof -
  let ?xxhash = "\<lambda>es. concat (map (\<lambda>e. ev_method (event (ev_record e))) es)"
  let ?old7 = "keyed \<lparr>hdr_number = 7, hdr_hash = ''0xaa''\<rparr>
                 \<lparr>indexes = [1], ev_record = mk_record ''balances'' ''Transfer'' []\<rparr>"
  let ?old6 = "keyed \<lparr>hdr_number = 6, hdr_hash = ''0x99''\<rparr>
                 \<lparr>indexes = [2], ev_record = mk_record ''contracts'' ''Called'' []\<rparr>"
  let ?st = "\<lparr>prevHashes = \<lparr>block = Some ''0xaa'', event_hash = Some ''Transfer''\<rparr>,
              systemEvents = \<lparr>eventCount = 2, events = [?old7, ?old6]\<rparr>\<rparr>"
  let ?header = "\<lparr>hdr_number = 7, hdr_hash = ''0xbb''\<rparr>"
  let ?records = "[mk_record ''system'' ''ExtrinsicSuccess'' [],
                   mk_record ''contracts'' ''Instantiated'' []]"
  have new: "newEvents ?records =
      [\<lparr>indexes = [1], ev_record = mk_record ''contracts'' ''Instantiated'' []\<rparr>]"
    by (simp add: newEvents_def index_records_def keep_event_def combine_def mk_record_sel
        extract_Nil_code)
  have h1: "newEvents ?records \<noteq> []"
    by (simp add: new)
  have h2: "Some (?xxhash (newEvents ?records)) \<noteq> event_hash (prevHashes ?st)"
    by (simp add: new mk_record_sel)
  have h3: "Some (hdr_hash ?header) \<noteq> block (prevHashes ?st)"
    by simp
  have "events (systemEvents (deliver ?xxhash (Inr ?header) ?records ?st)) =
          [keyed ?header \<lparr>indexes = [1], ev_record = mk_record ''contracts'' ''Instantiated'' []\<rparr>,
           ?old6]"
    using h1 h2 h3
      C3_new_block_replaces_log[where records = ?records and xxhash = ?xxhash and st = ?st
        and header = ?header and ds = "[]"]
    by (simp add: new keyed_def)
  with h1 h2 h3 show ?thesis
    unfolding Let_def by (intro conjI)
qed

text \<open>
  Claim C4, as the code has it. A delivery whose candidate list is empty or whose content
  hash equals the stored event hash only sets \<open>eventCount\<close> to the raw batch size: the
  stored list and both trackers stay as they are. A delivery with a non-empty candidate
  list and a new content hash whose fetched block hash equals the stored block hash
  leaves the atom alone (\<open>eventCount\<close> and the list) and the block hash too, but has
  already stored the new content hash in the event-hash tracker.
\<close>

theorem C4_amended:
  "((newEvents records = [] \<or> Some (xxhash (newEvents records)) = event_hash (prevHashes st)) \<longrightarrow>
      deliver xxhash getHeader records st =
        st\<lparr>systemEvents := (systemEvents st)\<lparr>eventCount := length records\<rparr>\<rparr>)
   \<and> ((newEvents records \<noteq> [] \<and> Some (xxhash (newEvents records)) \<noteq> event_hash (prevHashes st)
        \<and> Some (hdr_hash header) = block (prevHashes st)) \<longrightarrow>
      deliver xxhash (Inr header) records st =
        st\<lparr>prevHashes := (prevHashes st)\<lparr>event_hash := Some (xxhash (newEvents records))\<rparr>\<rparr>)"
  by (auto simp: deliver_def Let_def)

text \<open>
  Both branches after a first delivery for block 0xaa: a batch of noise only, and a second,
  different batch for the same block.
\<close>

theorem C4_amended_witness:
  "(let xxhash = (\<lambda>es. concat (map (\<lambda>e. ev_method (event (ev_record e))) es));
        header = \<lparr>hdr_number = 7, hdr_hash = ''0xaa''\<rparr>;
        st = deliver xxhash (Inr header) [mk_record ''contracts'' ''Instantiated'' []]
               initial_ingestion;
        noise = [mk_record ''system'' ''ExtrinsicSuccess'' [], mk_record ''balances'' ''Deposit'' []];
        records = [mk_record ''contracts'' ''Instantiated'' [], mk_record ''contracts'' ''Called'' []]
    in deliver xxhash (Inl (External ''offline'')) noise st =
         st\<lparr>systemEvents := (systemEvents st)\<lparr>eventCount := 2\<rparr>\<rparr>
       \<and> deliver xxhash (Inr header) records st =
         st\<lparr>prevHashes := (prevHashes st)\<lparr>event_hash := Some ''CalledInstantiated''\<rparr>\<rparr>)"
proof -
  let ?xxhash = "\<lambda>es. concat (map (\<lambda>e. ev_method (event (ev_record e))) es)"
  let ?header = "\<lparr>hdr_number = 7, hdr_hash = ''0xaa''\<rparr>"
  let ?st = "deliver ?xxhash (Inr ?header) [mk_record ''contracts'' ''Instantiated'' []]
               initial_ingestion"
  let ?noise = "[mk_record ''system'' ''ExtrinsicSuccess'' [], mk_record ''balances'' ''Deposit'' []]"
  let ?records = "[mk_record ''contracts'' ''Instantiated'' [], mk_record ''contracts'' ''Called'' []]"
  have n0: "newEvents ?noise = []"
    by (simp add: newEvents_def index_records_def keep_event_def mk_record_sel)
  have n1: "newEvents ?records =
      [\<lparr>indexes = [1], ev_record = mk_record ''contracts'' ''Called'' []\<rparr>,
       \<lparr>indexes = [0], ev_record = mk_record ''contracts'' ''Instantiated'' []\<rparr>]"
    by (simp add: newEvents_def index_records_def keep_event_def combine_def mk_record_sel
        same_kind_def extract_Cons_code extract_Nil_code)
  have n2: "newEvents [mk_record ''contracts'' ''Instantiated'' []] =
      [\<lparr>indexes = [0], ev_record = mk_record ''contracts'' ''Instantiated'' []\<rparr>]"
    by (simp add: newEvents_def index_records_def keep_event_def combine_def mk_record_sel
        extract_Nil_code)
  have st: "prevHashes ?st = \<lparr>block = Some ''0xaa'', event_hash = Some ''Instantiated''\<rparr>"
    by (simp add: deliver_def Let_def n2 initial_ingestion_def mk_record_sel)
  have a: "deliver ?xxhash (Inl (External ''offline'')) ?noise ?st =
         ?st\<lparr>systemEvents := (systemEvents ?st)\<lparr>eventCount := 2\<rparr>\<rparr>"
    using C4_amended[where records = ?noise and xxhash = ?xxhash and st = ?st
        and getHeader = "Inl (External ''offline'')" and header = ?header]
    by (simp add: n0)
  have b: "deliver ?xxhash (Inr ?header) ?records ?st =
         ?st\<lparr>prevHashes := (prevHashes ?st)\<lparr>event_hash := Some ''CalledInstantiated''\<rparr>\<rparr>"
    using C4_amended[where records = ?records and xxhash = ?xxhash and st = ?st
        and getHeader = "Inr ?header" and header = ?header]
    by (simp add: n1 st mk_record_sel)
  from a b show ?thesis
    unfolding Let_def by (intro conjI)
qed

text \<open>
  Claim C4 as stated fails on the duplicate-block branch: after a delivery for block 0xaa,
  a second batch of two events for the same block leaves \<open>eventCount\<close> at 1 and moves the
  event-hash tracker.
\<close>

theorem C4_counterexample:
  "(let xxhash = (\<lambda>es. concat (map (\<lambda>e. ev_method (event (ev_record e))) es));
        header = \<lparr>hdr_number = 7, hdr_hash = ''0xaa''\<rparr>;
        st = deliver xxhash (Inr header) [mk_record ''contracts'' ''Instantiated'' []]
               initial_ingestion;
        records = [mk_record ''contracts'' ''Instantiated'' [], mk_record ''contracts'' ''Called'' []];
        st' = deliver xxhash (Inr header) records st
    in Some (hdr_hash header) = block (prevHashes st)
       \<and> eventCount (systemEvents st) = 1
       \<and> length records = 2
       \<and> eventCount (systemEvents st') = 1
       \<and> event_hash (prevHashes st) = Some ''Instantiated''
       \<and> event_hash (prevHashes st') = Some ''CalledInstantiated'')"
  by (simp add: deliver_def Let_def initial_ingestion_def newEvents_def index_records_def
      keep_event_def combine_def mk_record_sel same_kind_def extract_Cons_code extract_Nil_code)

subsection \<open>signAndSend\<close>
















text \<open>
  Claim C9 says that a failure while awaiting the subscription rejects the promise that
  \<open>signAndSend\<close> returned. In the code it does not: the promise stays pending for ever,
  \<open>unsub\<close> is never called, and the error only rejects the promise of the async executor.
\<close>

theorem C9_subscription_failure_never_settles:
  "signAndSend (Inl e) = \<lparr>promise = None, unsub_calls = 0, uncaught = Some e\<rparr>"
  by (simp add: new_submission_def)

subsection \<open>useConnectApi\<close>


lemma connect_fresh:
  assumes "endpointUrl \<noteq> []" and "endpointUrl \<noteq> rpcEndpoint c"
    and "createApiInstance endpointUrl = Inr api"
  shows "connect createApiInstance endpointUrl c =
     c\<lparr>rpcEndpoint := endpointUrl, rpcEndpointError := [], rpcApiStatus := Connecting,
       timers := timers c @ [now c + 10000]\<rparr>"
  using assms by (simp add: connect_def dispatch_def connect_effect_def Let_def)





text \<open>
  Claim C6 says that in the Error state neither signal moves the status. The handler of
  the disconnect signal does keep Error; its sibling, the handler of the connected signal,
  has no such guard. The connection was up, dropped, and the liveness timer then forced
  Error on the Disconnected state; the provider reconnects, and the status becomes
  Connected with an empty endpoint, no API instance and the error message still set.
\<close>

theorem C6_ready_signal_leaves_error:
  "(let c = advance Inr 7000 (dispatch Inr on_disconnected (on_api_ready ''wss://node''
              (on_connected (advance Inr 3000 (connect Inr ''wss://node'' initial_connection)))))
    in c = \<lparr>rpcEndpoint = [], rpcEndpointError = ''RPC Endpoint is unreachable'',
             rpcApiInstance = None, rpcApiStatus = Error_status, now = 10000, timers = []\<rparr>
       \<and> dispatch Inr on_disconnected c = c
       \<and> dispatch Inr on_connected c = c\<lparr>rpcApiStatus := Connected\<rparr>)"
  by (simp add: connect_def dispatch_def connect_effect_def initial_connection_def advance_def
      Let_def on_timeout_def on_disconnected_def on_connected_def on_api_ready_def)

text \<open>
  What the hook settles in when the timer finds the status still Connecting: the callback
  has cleared the endpoint, so the effect runs again, clears the message and sets the
  status to Disconnected.
\<close>

lemma timeout_while_connecting_then_render:
  assumes "endpointUrl \<noteq> []" and "endpointUrl \<noteq> rpcEndpoint c"
    and "createApiInstance endpointUrl = Inr api" and "timers c = []"
  shows "advance createApiInstance 10000 (connect createApiInstance endpointUrl c) =
         c\<lparr>rpcEndpoint := [], rpcEndpointError := [], rpcApiInstance := None,
           rpcApiStatus := Disconnected, now := now c + 10000, timers := []\<rparr>"
  using assms
  by (simp add: connect_fresh advance_def Let_def dispatch_def on_timeout_def connect_effect_def)

text \<open>
  An endpoint for which \<open>createApiInstance\<close> throws: the status stays Connecting and no
  timer ever changes it.
\<close>

lemma connect_unusable_endpoint:
  assumes "endpointUrl \<noteq> []" and "endpointUrl \<noteq> rpcEndpoint c"
    and "createApiInstance endpointUrl = Inl err" and "timers c = []"
  shows "advance createApiInstance d (connect createApiInstance endpointUrl c) =
         c\<lparr>rpcEndpoint := endpointUrl, rpcEndpointError := [], rpcApiStatus := Connecting,
           now := now c + d\<rparr>"
  using assms
  by (simp add: connect_def advance_def Let_def dispatch_def connect_effect_def)

subsection \<open>checkUntil and blockBarrier\<close>

lemma loop_char:
  assumes "checkUntil_loop f cost T k e = (r, n)" and "e = head_time cost k"
  shows "k < n \<and>
         (\<forall>j. k \<le> j \<and> j < n - 1 \<longrightarrow> f j = Inr False \<and> int (head_time cost j + cost j) < T) \<and>
         (case f (n - 1) of
            Inl err \<Rightarrow> r = Inl err
          | Inr True \<Rightarrow> r = Inr ()
          | Inr False \<Rightarrow> r = Inl (Error ''timeout'') \<and> T \<le> int (head_time cost (n - 1) + cost (n - 1)))"
  using assms
proof (induction f cost T k e arbitrary: r n rule: checkUntil_loop.induct)
  case (1 async_fn cost timeout k elapsed)
  note step = checkUntil_loop.simps[of async_fn cost timeout k elapsed]
  show ?case
  proof (cases "async_fn k")
    case (Inl err)
    with "1.prems"(1) have "r = Inl err \<and> n = Suc k"
      by (auto simp: step)
    with Inl show ?thesis by auto
  next
    case (Inr b)
    show ?thesis
    proof (cases b)
      case True
      with Inr "1.prems"(1) have "r = Inr () \<and> n = Suc k"
        by (auto simp: step)
      with Inr True show ?thesis by auto
    next
      case False
      show ?thesis
      proof (cases "timeout \<le> int (elapsed + cost k)")
        case True
        with Inr False "1.prems"(1) have "r = Inl (Error ''timeout'') \<and> n = Suc k"
          by (auto simp: step)
        with Inr False True "1.prems"(2) show ?thesis by auto
      next
        case late: False
        with Inr False "1.prems"(1)
        have rec: "checkUntil_loop async_fn cost timeout (Suc k) (elapsed + cost k + 100) = (r, n)"
          by (simp add: step)
        have e': "elapsed + cost k + 100 = head_time cost (Suc k)"
          using "1.prems"(2) by simp
        from "1.IH"[OF Inr _ refl late rec e'] False
        have ih: "Suc k < n \<and>
         (\<forall>j. Suc k \<le> j \<and> j < n - 1 \<longrightarrow>
              async_fn j = Inr False \<and> int (head_time cost j + cost j) < timeout) \<and>
         (case async_fn (n - 1) of
            Inl err \<Rightarrow> r = Inl err
          | Inr True \<Rightarrow> r = Inr ()
          | Inr False \<Rightarrow> r = Inl (Error ''timeout'') \<and>
              timeout \<le> int (head_time cost (n - 1) + cost (n - 1)))"
          by simp
        have "\<forall>j. k \<le> j \<and> j < n - 1 \<longrightarrow>
              async_fn j = Inr False \<and> int (head_time cost j + cost j) < timeout"
        proof (intro allI impI)
          fix j assume j: "k \<le> j \<and> j < n - 1"
          show "async_fn j = Inr False \<and> int (head_time cost j + cost j) < timeout"
          proof (cases "j = k")
            case True
            with Inr False late "1.prems"(2) show ?thesis by simp
          next
            case False
            with j have "Suc k \<le> j \<and> j < n - 1" by simp
            with ih show ?thesis by blast
          qed
        qed
        with ih show ?thesis by simp
      qed
    qed
  qed
qed

lemma checkUntil_char:
  assumes "checkUntil f cost T = (r, n)"
  shows "0 < n \<and>
         (\<forall>j < n - 1. f j = Inr False \<and> int (head_time cost j + cost j) < T) \<and>
         (case f (n - 1) of
            Inl err \<Rightarrow> r = Inl err
          | Inr True \<Rightarrow> r = Inr ()
          | Inr False \<Rightarrow> r = Inl (Error ''timeout'') \<and> T \<le> int (head_time cost (n - 1) + cost (n - 1)))"
  using loop_char[of f cost T 0 0 r n] assms by (simp add: checkUntil_def)

lemma checkUntil_first_truthy:
  "f 0 = Inr True \<Longrightarrow> checkUntil f cost T = (Inr (), 1)"
  by (simp add: checkUntil_def checkUntil_loop.simps[of f cost T 0 0])

lemma checkUntil_first_late:
  "f 0 = Inr False \<Longrightarrow> T \<le> int (cost 0) \<Longrightarrow> checkUntil f cost T = (Inl (Error ''timeout''), 1)"
  by (simp add: checkUntil_def checkUntil_loop.simps[of f cost T 0 0])

text \<open>
  Claim C10. \<open>checkUntil\<close> calls the predicate before it looks at the clock: the
  predicate is called at least once for every timeout; when the first call is truthy the
  call succeeds after that one evaluation, however large the elapsed time and however
  small the timeout; a first falsy call with the elapsed time at or beyond the timeout
  throws \<open>timeout\<close>; and whenever \<open>timeout\<close> is thrown (the predicate not throwing that
  error itself), the last call of the predicate was falsy and the time elapsed after it
  was at least the timeout.
\<close>

theorem C10_checkUntil_order:
  "1 \<le> snd (checkUntil async_fn cost timeout)
   \<and> (async_fn 0 = Inr True \<longrightarrow> checkUntil async_fn cost timeout = (Inr (), 1))
   \<and> (async_fn 0 = Inr False \<and> timeout \<le> int (cost 0) \<longrightarrow>
        checkUntil async_fn cost timeout = (Inl (Error ''timeout''), 1))
   \<and> ((\<forall>k. async_fn k \<noteq> Inl (Error ''timeout'')) \<and>
       fst (checkUntil async_fn cost timeout) = Inl (Error ''timeout'') \<longrightarrow>
        async_fn (snd (checkUntil async_fn cost timeout) - 1) = Inr False \<and>
        timeout \<le> int (head_time cost (snd (checkUntil async_fn cost timeout) - 1)
                         + cost (snd (checkUntil async_fn cost timeout) - 1)))"
proof -
  obtain r n where rn: "checkUntil async_fn cost timeout = (r, n)"
    by (cases "checkUntil async_fn cost timeout")
  note ch = checkUntil_char[OF rn]
  have a: "1 \<le> snd (checkUntil async_fn cost timeout)"
    using ch by (simp add: rn)
  have d: "(\<forall>k. async_fn k \<noteq> Inl (Error ''timeout'')) \<and>
       fst (checkUntil async_fn cost timeout) = Inl (Error ''timeout'') \<longrightarrow>
        async_fn (snd (checkUntil async_fn cost timeout) - 1) = Inr False \<and>
        timeout \<le> int (head_time cost (snd (checkUntil async_fn cost timeout) - 1)
                         + cost (snd (checkUntil async_fn cost timeout) - 1))"
  proof
    assume h: "(\<forall>k. async_fn k \<noteq> Inl (Error ''timeout'')) \<and>
       fst (checkUntil async_fn cost timeout) = Inl (Error ''timeout'')"
    then have r: "r = Inl (Error ''timeout'')" by (simp add: rn)
    from h have ne: "async_fn (n - 1) \<noteq> Inl (Error ''timeout'')" by blast
    from ch r ne have "async_fn (n - 1) = Inr False \<and>
        timeout \<le> int (head_time cost (n - 1) + cost (n - 1))"
      by (cases "async_fn (n - 1)") (auto split: bool.splits)
    then show "async_fn (snd (checkUntil async_fn cost timeout) - 1) = Inr False \<and>
        timeout \<le> int (head_time cost (snd (checkUntil async_fn cost timeout) - 1)
                         + cost (snd (checkUntil async_fn cost timeout) - 1))"
      by (simp add: rn)
  qed
  show ?thesis
    using a d checkUntil_first_truthy[of async_fn cost timeout]
      checkUntil_first_late[of async_fn timeout cost]
    by blast
qed

text \<open>
  A timeout of 0 with a truthy first call that took 500 ms, and a timeout of 150 ms with
  a predicate that is never truthy: calls at 0, 100 and 200 ms.
\<close>

theorem C10_checkUntil_witness:
  "checkUntil (\<lambda>k. Inr True) (\<lambda>k. 500) 0 = (Inr (), 1)
   \<and> checkUntil (\<lambda>k. Inr False) (\<lambda>k. 0) 150 = (Inl (Error ''timeout''), 3)
   \<and> (150::int) \<le> int (head_time (\<lambda>k. 0) 2 + 0)"
proof -
  have run: "checkUntil (\<lambda>k. Inr False) (\<lambda>k. 0) 150 = (Inl (Error ''timeout''), 3)"
    by (simp add: checkUntil_def checkUntil_loop.simps)
  have "(3::nat) - 1 = 2" by simp
  with run C10_checkUntil_order[of "\<lambda>k. Inr False" "\<lambda>k. 0" 150]
  have "(150::int) \<le> int (head_time (\<lambda>k. 0) 2 + 0)"
    by simp
  moreover from C10_checkUntil_order[of "\<lambda>k. Inr True" "\<lambda>k. 500" 0]
  have "checkUntil (\<lambda>k. Inr True) (\<lambda>k. 500) 0 = (Inr (), 1)"
    by simp
  ultimately show ?thesis using run by blast
qed

lemma checkUntil_success_iff:
  assumes "\<forall>k. \<exists>b. f k = Inr b"
  shows "fst (checkUntil f cost T) = Inr () \<longleftrightarrow>
         (\<exists>k. f k = Inr True \<and> (\<forall>j<k. f j = Inr False \<and> int (head_time cost j + cost j) < T))"
proof -
  obtain r n where rn: "checkUntil f cost T = (r, n)"
    by (cases "checkUntil f cost T")
  note ch = checkUntil_char[OF rn]
  show ?thesis
  proof
    assume "fst (checkUntil f cost T) = Inr ()"
    then have r: "r = Inr ()" by (simp add: rn)
    with ch have "f (n - 1) = Inr True"
      by (cases "f (n - 1)") (auto split: bool.splits)
    with ch show "\<exists>k. f k = Inr True \<and> (\<forall>j<k. f j = Inr False \<and> int (head_time cost j + cost j) < T)"
      by blast
  next
    assume "\<exists>k. f k = Inr True \<and> (\<forall>j<k. f j = Inr False \<and> int (head_time cost j + cost j) < T)"
    then obtain k where k: "f k = Inr True"
      and before: "\<forall>j<k. f j = Inr False \<and> int (head_time cost j + cost j) < T"
      by blast
    have "n - 1 = k"
    proof (rule ccontr)
      assume "n - 1 \<noteq> k"
      then consider "n - 1 < k" | "k < n - 1" by linarith
      then show False
      proof cases
        case 1
        with before have "f (n - 1) = Inr False" and "int (head_time cost (n - 1) + cost (n - 1)) < T"
          by simp_all
        with ch show False by simp
      next
        case 2
        with ch have "f k = Inr False" by blast
        with k show False by simp
      qed
    qed
    with ch k have "r = Inr ()" by simp
    then show "fst (checkUntil f cost T) = Inr ()" by (simp add: rn)
  qed
qed

lemma checkUntil_failure_timeout:
  assumes "\<forall>k. \<exists>b. f k = Inr b" and "fst (checkUntil f cost T) \<noteq> Inr ()"
  shows "fst (checkUntil f cost T) = Inl (Error ''timeout'')"
proof -
  obtain r n where rn: "checkUntil f cost T = (r, n)"
    by (cases "checkUntil f cost T")
  note ch = checkUntil_char[OF rn]
  from assms(1) obtain b where b: "f (n - 1) = Inr b" by blast
  with ch assms(2) show ?thesis
    by (cases b) (simp_all add: rn)
qed

lemma checkUntil_last_index:
  assumes "checkUntil f cost T = (r, n)"
    and "\<forall>j<k. f j = Inr False \<and> int (head_time cost j + cost j) < T"
    and "f k = Inr True \<or> (f k = Inr False \<and> T \<le> int (head_time cost k + cost k))"
  shows "n = Suc k"
proof -
  note ch = checkUntil_char[OF assms(1)]
  have "n - 1 = k"
  proof (rule ccontr)
    assume "n - 1 \<noteq> k"
    then consider "n - 1 < k" | "k < n - 1" by linarith
    then show False
    proof cases
      case 1
      with assms(2) have "f (n - 1) = Inr False" and "int (head_time cost (n - 1) + cost (n - 1)) < T"
        by simp_all
      with ch show False by simp
    next
      case 2
      with ch have "f k = Inr False \<and> int (head_time cost k + cost k) < T" by blast
      with assms(3) show False by auto
    qed
  qed
  moreover from ch have "0 < n" by blast
  ultimately show ?thesis by linarith
qed

lemma checkUntil_success:
  assumes "f k = Inr True"
    and "\<forall>j<k. f j = Inr False \<and> int (head_time cost j + cost j) < T"
  shows "checkUntil f cost T = (Inr (), Suc k)"
proof -
  obtain r n where rn: "checkUntil f cost T = (r, n)"
    by (cases "checkUntil f cost T")
  have n: "n = Suc k"
    using rn assms(2) assms(1) by (rule checkUntil_last_index[OF _ _ disjI1])
  with checkUntil_char[OF rn] assms(1) have "r = Inr ()" by simp
  with rn n show ?thesis by simp
qed

lemma checkUntil_timeout:
  assumes "f k = Inr False" and "T \<le> int (head_time cost k + cost k)"
    and "\<forall>j<k. f j = Inr False \<and> int (head_time cost j + cost j) < T"
  shows "checkUntil f cost T = (Inl (Error ''timeout''), Suc k)"
proof -
  obtain r n where rn: "checkUntil f cost T = (r, n)"
    by (cases "checkUntil f cost T")
  have n: "n = Suc k"
    using rn assms(3) assms(1) assms(2) by (intro checkUntil_last_index[OF _ _ disjI2] conjI)
  with checkUntil_char[OF rn] assms(1) have "r = Inl (Error ''timeout'')" by simp
  with rn n show ?thesis by simp
qed

lemma head_time_zero_cost: "head_time (\<lambda>k. 0) k = 100 * k"
  by (induction k) simp_all

lemma heights_worker: "heights hs k = Inr (if k < length hs then hs ! k else last hs)"
  by (simp add: heights_def)

text \<open>
  The default mode. \<open>blockBarrier\<close> reads the height of the best header once, at the
  start: a chain that answers the same at that moment gives the same run. With a worker
  that answers every poll, the polls 100 ms apart (plus what the calls take), the barrier
  succeeds at the first poll that reports a height strictly greater than the target,
  provided every poll before it left the elapsed time below the timeout, and it makes no
  further poll; it fails with \<open>timeout\<close> at the first poll that is not greater and
  leaves the elapsed time at or beyond the timeout. The default timeout is 24000 ms.
\<close>

lemma blockBarrier_best_header:
  assumes "chain_getHeader api 0 = Inr target"
    and "\<forall>k. getInfo k = Inr (worker k)"
  shows
    "blockBarrier_default api getInfo cost = blockBarrier api getInfo cost False 24000
   \<and> (\<forall>k. target < worker k \<and>
            (\<forall>j<k. \<not> target < worker j \<and> int (head_time cost j + cost j) < timeout) \<longrightarrow>
          blockBarrier api getInfo cost False timeout = (Inr (), Suc k))
   \<and> (\<forall>k. \<not> target < worker k \<and> timeout \<le> int (head_time cost k + cost k) \<and>
            (\<forall>j<k. \<not> target < worker j \<and> int (head_time cost j + cost j) < timeout) \<longrightarrow>
          blockBarrier api getInfo cost False timeout = (Inl (Error ''timeout''), Suc k))
   \<and> (fst (blockBarrier api getInfo cost False timeout) = Inr () \<longleftrightarrow>
        (\<exists>k. target < worker k \<and>
             (\<forall>j<k. \<not> target < worker j \<and> int (head_time cost j + cost j) < timeout)))
   \<and> (fst (blockBarrier api getInfo cost False timeout) \<noteq> Inr () \<longrightarrow>
        fst (blockBarrier api getInfo cost False timeout) = Inl (Error ''timeout''))
   \<and> (chain_getHeader api' 0 = Inr target
        \<longrightarrow> blockBarrier api' getInfo cost False timeout =
            blockBarrier api getInfo cost False timeout)"
proof -
  let ?f = "\<lambda>k. case getInfo k of Inl e \<Rightarrow> Inl e | Inr blocknum \<Rightarrow> Inr (target < blocknum)"
  have f: "\<And>k. ?f k = Inr (target < worker k)"
    using assms(2) by simp
  then have total: "\<forall>k. \<exists>b. ?f k = Inr b"
    by blast
  have bb: "blockBarrier api getInfo cost False timeout = checkUntil ?f cost timeout"
    using assms(1) by (simp add: blockBarrier_def)
  have ok: "\<forall>k. target < worker k \<and>
            (\<forall>j<k. \<not> target < worker j \<and> int (head_time cost j + cost j) < timeout) \<longrightarrow>
          blockBarrier api getInfo cost False timeout = (Inr (), Suc k)"
  proof (intro allI impI)
    fix k
    assume a: "target < worker k \<and>
            (\<forall>j<k. \<not> target < worker j \<and> int (head_time cost j + cost j) < timeout)"
    have "checkUntil ?f cost timeout = (Inr (), Suc k)"
      by (rule checkUntil_success) (use a f in simp_all)
    then show "blockBarrier api getInfo cost False timeout = (Inr (), Suc k)"
      by (simp only: bb)
  qed
  have late: "\<forall>k. \<not> target < worker k \<and> timeout \<le> int (head_time cost k + cost k) \<and>
            (\<forall>j<k. \<not> target < worker j \<and> int (head_time cost j + cost j) < timeout) \<longrightarrow>
          blockBarrier api getInfo cost False timeout = (Inl (Error ''timeout''), Suc k)"
  proof (intro allI impI)
    fix k
    assume a: "\<not> target < worker k \<and> timeout \<le> int (head_time cost k + cost k) \<and>
            (\<forall>j<k. \<not> target < worker j \<and> int (head_time cost j + cost j) < timeout)"
    have "checkUntil ?f cost timeout = (Inl (Error ''timeout''), Suc k)"
      by (rule checkUntil_timeout) (use a f in simp_all)
    then show "blockBarrier api getInfo cost False timeout = (Inl (Error ''timeout''), Suc k)"
      by (simp only: bb)
  qed
  have "fst (checkUntil ?f cost timeout) = Inr () \<longleftrightarrow>
        (\<exists>k. ?f k = Inr True \<and>
             (\<forall>j<k. ?f j = Inr False \<and> int (head_time cost j + cost j) < timeout))"
    using total by (rule checkUntil_success_iff)
  then have iff: "fst (blockBarrier api getInfo cost False timeout) = Inr () \<longleftrightarrow>
        (\<exists>k. target < worker k \<and>
             (\<forall>j<k. \<not> target < worker j \<and> int (head_time cost j + cost j) < timeout))"
    unfolding bb f by simp
  have fail: "fst (blockBarrier api getInfo cost False timeout) \<noteq> Inr () \<longrightarrow>
        fst (blockBarrier api getInfo cost False timeout) = Inl (Error ''timeout'')"
    unfolding bb using checkUntil_failure_timeout[OF total] by blast
  have once: "chain_getHeader api' 0 = Inr target
        \<longrightarrow> blockBarrier api' getInfo cost False timeout =
            blockBarrier api getInfo cost False timeout"
    using assms(1) by (simp add: blockBarrier_def)
  have dflt: "blockBarrier_default api getInfo cost = blockBarrier api getInfo cost False 24000"
    by (simp add: blockBarrier_default_def)
  show ?thesis
    by (rule conjI[OF dflt conjI[OF ok conjI[OF late conjI[OF iff conjI[OF fail once]]]]])
qed

text \<open>
  Target height 100, read at the start from a chain that keeps growing, polls that answer
  at once: a worker seen at 98, 99 and then 100 for the rest of the window gives a
  timeout after 241 polls (the last one 24000 ms after the start), one seen at 98, 99,
  101 gives success at the third poll.
\<close>

lemma blockBarrier_examples:
  "(let api = \<lparr>chain_getFinalizedHead = (\<lambda>t. Inr ''0xf97''), chain_getHeader = (\<lambda>t. Inr (100 + t div 6000))\<rparr>
    in blockBarrier_default api (heights [98, 99, 100]) (\<lambda>k. 0) = (Inl (Error ''timeout''), 241)
       \<and> blockBarrier_default api (heights [98, 99, 101]) (\<lambda>k. 0) = (Inr (), 3))"
proof -
  let ?api = "\<lparr>chain_getFinalizedHead = (\<lambda>t. Inr ''0xf97''), chain_getHeader = (\<lambda>t. Inr (100 + t div 6000))\<rparr>"
  let ?w0 = "\<lambda>k. if k < length [98, 99, 100::nat] then [98, 99, 100::nat] ! k
                 else last [98, 99, 100::nat]"
  let ?w1 = "\<lambda>k. if k < length [98, 99, 101::nat] then [98, 99, 101::nat] ! k
                 else last [98, 99, 101::nat]"
  let ?zero = "\<lambda>k::nat. 0::nat"
  have head: "chain_getHeader ?api 0 = Inr 100"
    by simp
  have h0: "\<forall>k. heights [98, 99, 100] k = Inr (?w0 k)"
    by (intro allI, rule heights_worker)
  have h1: "\<forall>k. heights [98, 99, 101] k = Inr (?w1 k)"
    by (intro allI, rule heights_worker)
  note th0 = blockBarrier_best_header[where api = ?api and target = 100
        and getInfo = "heights [98, 99, 100]" and worker = ?w0 and cost = ?zero
        and timeout = 24000, OF head h0]
  note th1 = blockBarrier_best_header[where api = ?api and target = 100
        and getInfo = "heights [98, 99, 101]" and worker = ?w1 and cost = ?zero
        and timeout = 24000, OF head h1]
  have le: "\<And>k. \<not> (100::nat) < ?w0 k"
    by (simp add: nth_Cons split: nat.splits)
  have time: "\<And>j. int (head_time ?zero j + ?zero j) = 100 * int j"
    by (simp add: head_time_zero_cost)
  have "\<not> (100::nat) < ?w0 240 \<and> (24000::int) \<le> int (head_time ?zero 240 + ?zero 240) \<and>
        (\<forall>j<240. \<not> (100::nat) < ?w0 j \<and> int (head_time ?zero j + ?zero j) < 24000)"
    unfolding time using le by auto
  with th0 have "blockBarrier ?api (heights [98, 99, 100]) ?zero False 24000
      = (Inl (Error ''timeout''), Suc 240)"
    by blast
  moreover have "blockBarrier_default ?api (heights [98, 99, 100]) ?zero
      = blockBarrier ?api (heights [98, 99, 100]) ?zero False 24000"
    using th0 by blast
  ultimately have t: "blockBarrier_default ?api (heights [98, 99, 100]) ?zero
      = (Inl (Error ''timeout''), 241)"
    by simp
  have w2: "(100::nat) < ?w1 2" and w1: "\<not> (100::nat) < ?w1 1" and w0: "\<not> (100::nat) < ?w1 0"
    by simp_all
  have "\<forall>j<2::nat. \<not> (100::nat) < ?w1 j \<and> int (head_time ?zero j + ?zero j) < 24000"
  proof (intro allI impI)
    fix j :: nat assume "j < 2"
    then have "j = 0 \<or> j = 1" by auto
    with w0 w1 show "\<not> (100::nat) < ?w1 j \<and> int (head_time ?zero j + ?zero j) < 24000"
      unfolding time by (elim disjE) (simp_all only:, simp_all)
  qed
  with w2 th1 have "blockBarrier ?api (heights [98, 99, 101]) ?zero False 24000 = (Inr (), Suc 2)"
    by blast
  moreover have "blockBarrier_default ?api (heights [98, 99, 101]) ?zero
      = blockBarrier ?api (heights [98, 99, 101]) ?zero False 24000"
    using th1 by blast
  ultimately have s: "blockBarrier_default ?api (heights [98, 99, 101]) ?zero = (Inr (), 3)"
    by simp
  from t s show ?thesis
    unfolding Let_def by (intro conjI)
qed

text \<open>
  Claim C7 says that the barrier reads the target height from the finalized head or the
  best header, by mode, and then polls. In the finalized mode the code does not get that
  far: \<open>getFinalizedHead\<close> answers a block hash, \<open>head.number\<close> is undefined, and the
  call fails with a TypeError without a single poll, whatever the worker reports.
\<close>

theorem C7_finalized_mode_throws:
  "blockBarrier \<lparr>chain_getFinalizedHead = (\<lambda>t. Inr head), chain_getHeader = best\<rparr>
     getInfo cost True timeout = (Inl (External ''TypeError''), 0)"
  by (simp add: blockBarrier_def)

subsection \<open>useRunner\<close>

lemma truthy_entry_lookup: "truthy_entry table l \<Longrightarrow> truthy_lookup table l"
  by (simp add: truthy_entry_def truthy_lookup_def split: option.splits)

text \<open>
  Claim C8. A read-only invocation that reaches the worker query and gets a query result
  returns normally, and puts exactly one result at the front of the log: \<open>succeed\<close> is
  the \<open>isOk\<close> discriminant; the output is the decoded output when it holds, and the
  decoded error otherwise.
\<close>

theorem C8_query_result_recorded:
  assumes "env_api env" and "env_account env"
    and "env_methodSpec env = Some spec" and "\<not> mutates spec"
    and "apiCopy env = Inr ()" and "env_contract env = Some c" and "created env = Inr ()"
    and "truthy_entry (queryMethods env) (label spec)"
    and "web3FromSource env = Inr ()" and "signCertificate env = Inr ()"
    and "queryResult env = Inr qr"
  shows "runner_fn env ins st =
           (Returned,
            \<lparr>isLoading = False,
             results =
               \<lparr>contract = c, methodSpec = spec, succeed = result_isOk qr, args = ins,
                run_output = (if result_isOk qr then output_toHuman qr
                              else Some (result_toHuman qr)),
                completedAt = date_now env\<rparr> # results st\<rparr>)"
  using assms truthy_entry_lookup[of "queryMethods env" "label spec"]
  by (simp add: runner_fn_def run_body_def run_query_def appendResult_def)

text \<open>
  A query that the contract reverts.
\<close>

theorem C8_query_result_witness:
  "(let spec = \<lparr>label = ''get'', mutates = False, msg_args = []\<rparr>;
        c = \<lparr>contractId = ''0x01'', metadata = ''{}''\<rparr>;
        env = \<lparr>env_api = True, env_account = True, env_methodSpec = Some spec,
               env_contract = Some c, apiCopy = Inr (), created = Inr (),
               queryMethods = [(''get'', ''get'')], txMethods = [(''flip'', ''flip'')],
               web3FromSource = Inr (), submission = Inr [], createPruntimeApi = Inr (),
               env_chain = \<lparr>chain_getFinalizedHead = (\<lambda>t. Inr ''0x00''), chain_getHeader = (\<lambda>t. Inr 0)\<rparr>,
               env_getInfo = (\<lambda>k. Inr 0), env_cost = (\<lambda>k. 0), signCertificate = Inr (),
               queryResult = Inr \<lparr>result_isOk = False, result_toHuman = ''{Err: Reverted}'',
                                  output_toHuman = None\<rparr>,
               date_now = 1700000000000\<rparr>
    in runner_fn env [] \<lparr>isLoading = False, results = []\<rparr> =
         (Returned,
          \<lparr>isLoading = False,
           results = [\<lparr>contract = c, methodSpec = spec, succeed = False, args = [],
                       run_output = Some ''{Err: Reverted}'',
                       completedAt = 1700000000000\<rparr>]\<rparr>))"
proof -
  let ?spec = "\<lparr>label = ''get'', mutates = False, msg_args = []\<rparr>"
  let ?c = "\<lparr>contractId = ''0x01'', metadata = ''{}''\<rparr>"
  let ?qr = "\<lparr>result_isOk = False, result_toHuman = ''{Err: Reverted}'', output_toHuman = None\<rparr>"
  let ?env = "\<lparr>env_api = True, env_account = True, env_methodSpec = Some ?spec,
               env_contract = Some ?c, apiCopy = Inr (), created = Inr (),
               queryMethods = [(''get'', ''get'')], txMethods = [(''flip'', ''flip'')],
               web3FromSource = Inr (), submission = Inr [], createPruntimeApi = Inr (),
               env_chain = \<lparr>chain_getFinalizedHead = (\<lambda>t. Inr ''0x00''), chain_getHeader = (\<lambda>t. Inr 0)\<rparr>,
               env_getInfo = (\<lambda>k. Inr 0), env_cost = (\<lambda>k. 0), signCertificate = Inr (),
               queryResult = Inr ?qr, date_now = 1700000000000\<rparr>"
  have "runner_fn ?env [] \<lparr>isLoading = False, results = []\<rparr> =
         (Returned,
          \<lparr>isLoading = False,
           results = [\<lparr>contract = ?c, methodSpec = ?spec, succeed = False, args = [],
                       run_output = Some ''{Err: Reverted}'',
                       completedAt = 1700000000000\<rparr>]\<rparr>)"
    using C8_query_result_recorded[where env = ?env and spec = ?spec and c = ?c and qr = ?qr
        and ins = "[]" and st = "\<lparr>isLoading = False, results = []\<rparr>"]
    by (simp add: truthy_entry_def)
  then show ?thesis
    unfolding Let_def .
qed

end
